theory Spec2Isabelle
  imports Main "HOL-Library.Word"
begin

unbundle bit_operations_syntax

section \<open>The LC-3 virtual machine of LC3.c\<close>

text \<open>
  A shallow embedding of \<^verbatim>\<open>src/LC3.c\<close>. A machine word is \<open>uint16_t\<close>, modelled
  as \<open>16 word\<close>: addition wraps modulo \<open>2 ^ 16\<close>, \<open>drop_bit\<close> is \<open>>>\<close>, \<open>push_bit\<close>
  is \<open><<\<close>. The global array \<open>memory[MEMORY_MAX]\<close> is a total function from the
  65536 addresses. The global array \<open>reg[R_COUNT]\<close> is indexed by the enum constants
  \<open>R_R0 .. R_COND\<close>; the program counter and the condition flags live in the same
  array as the general registers (indices 8 and 9), exactly as in the source.
\<close>

type_synonym word16 = "16 word"

subsection \<open>Enumerations\<close>

definition MR_KBSR :: word16 where "MR_KBSR = 0xFE00"
definition MR_KBDR :: word16 where "MR_KBDR = 0xFE02"

definition TRAP_GETC :: word16 where "TRAP_GETC = 0x20"
definition TRAP_OUT :: word16 where "TRAP_OUT = 0x21"
definition TRAP_PUTS :: word16 where "TRAP_PUTS = 0x22"
definition TRAP_IN :: word16 where "TRAP_IN = 0x23"
definition TRAP_PUTSP :: word16 where "TRAP_PUTSP = 0x24"
definition TRAP_HALT :: word16 where "TRAP_HALT = 0x25"

definition R_R0 :: nat where "R_R0 = 0"
definition R_R7 :: nat where "R_R7 = 7"
definition R_PC :: nat where "R_PC = 8"
definition R_COND :: nat where "R_COND = 9"
definition R_COUNT :: nat where "R_COUNT = 10"

definition FL_POS :: word16 where "FL_POS = push_bit 0 1"
definition FL_ZRO :: word16 where "FL_ZRO = push_bit 1 1"
definition FL_NEG :: word16 where "FL_NEG = push_bit 2 1"

definition OP_BR :: word16 where "OP_BR = 0"
definition OP_ADD :: word16 where "OP_ADD = 1"
definition OP_LD :: word16 where "OP_LD = 2"
definition OP_ST :: word16 where "OP_ST = 3"
definition OP_JSR :: word16 where "OP_JSR = 4"
definition OP_AND :: word16 where "OP_AND = 5"
definition OP_LDR :: word16 where "OP_LDR = 6"
definition OP_STR :: word16 where "OP_STR = 7"
definition OP_RTI :: word16 where "OP_RTI = 8"
definition OP_NOT :: word16 where "OP_NOT = 9"
definition OP_LDI :: word16 where "OP_LDI = 10"
definition OP_STI :: word16 where "OP_STI = 11"
definition OP_JMP :: word16 where "OP_JMP = 12"
definition OP_RES :: word16 where "OP_RES = 13"
definition OP_LEA :: word16 where "OP_LEA = 14"
definition OP_TRAP :: word16 where "OP_TRAP = 15"

definition PC_START :: word16 where "PC_START = 0x3000"

subsection \<open>The host's character input and output\<close>

text \<open>
  \<open>check_key\<close> (a console wait of up to one second and \<open>_kbhit\<close>) and the C library's
  \<open>getchar\<close> are calls into the host. They are a parameter of the model: a provider
  has a hidden state of an arbitrary type \<open>'p\<close> (console buffers, the wall clock), and
  each call returns an answer and the provider's next state. \<open>getchar\<close> returns an
  \<open>int\<close>: a byte \<open>0..255\<close>, or \<open>EOF = -1\<close>. What \<open>putc\<close>, \<open>printf\<close> and \<open>puts\<close>
  write is appended, byte by byte, to the field \<open>stdout\<close> of the machine state.
\<close>

record 'p provider =
  check_key :: "'p \<Rightarrow> bool \<times> 'p"
  getchar :: "'p \<Rightarrow> int \<times> 'p"

record 'p vm =
  memory :: "word16 \<Rightarrow> word16"
  reg :: "nat \<Rightarrow> word16"
  running :: bool
  stdout :: "8 word list"
  prov :: 'p

text \<open>\<open>abort()\<close> ends the process; a read through a pointer that has left the array
  \<open>memory\<close> has no defined behaviour. Both are outcomes of a step.\<close>

datatype error = Aborted | OutOfBounds

subsection \<open>Helpers\<close>

text \<open>
  \<open>sign_extend(x, bit_count)\<close>. The mask \<open>0xFFFF << bit_count\<close> is computed in
  \<open>int\<close> (32 bits) and truncated by the assignment to the 16-bit \<open>x\<close>. The source
  calls it with the widths 5, 6, 9 and 11; a width of 0 would shift by \<open>-1\<close> and is
  outside the model (here \<open>bit_count - 1\<close> on \<open>nat\<close> stops at 0).
\<close>

definition sign_extend :: "word16 \<Rightarrow> nat \<Rightarrow> word16" where
  "sign_extend x bit_count =
     (if drop_bit (bit_count - 1) x AND 1 \<noteq> 0
      then x OR ucast (push_bit bit_count (0xFFFF :: 32 word))
      else x)"

definition swap16 :: "word16 \<Rightarrow> word16" where
  "swap16 x = push_bit 8 x OR drop_bit 8 x"

definition update_flags :: "nat \<Rightarrow> 'p vm \<Rightarrow> 'p vm" where
  "update_flags r s =
     (if reg s r = 0 then s\<lparr>reg := (reg s)(R_COND := FL_ZRO)\<rparr>
      else if drop_bit 15 (reg s r) \<noteq> 0 then s\<lparr>reg := (reg s)(R_COND := FL_NEG)\<rparr>
      else s\<lparr>reg := (reg s)(R_COND := FL_POS)\<rparr>)"

definition mem_write :: "word16 \<Rightarrow> word16 \<Rightarrow> 'p vm \<Rightarrow> 'p vm" where
  "mem_write address val s = s\<lparr>memory := (memory s)(address := val)\<rparr>"

text \<open>\<open>mem_read\<close> returns the value read and the state after the read.\<close>

definition mem_read :: "'p provider \<Rightarrow> word16 \<Rightarrow> 'p vm \<Rightarrow> word16 \<times> 'p vm" where
  "mem_read P address s =
     (let s' =
        (if address = MR_KBSR then
           (case check_key P (prov s) of
              (k, p1) \<Rightarrow>
                if k then
                  (case getchar P p1 of
                     (c, p2) \<Rightarrow>
                       s\<lparr>memory := (memory s)(MR_KBSR := push_bit 15 1, MR_KBDR := word_of_int c),
                         prov := p2\<rparr>)
                else s\<lparr>memory := (memory s)(MR_KBSR := 0), prov := p1\<rparr>)
         else s)
      in (memory s' address, s'))"

subsection \<open>Register selectors\<close>

definition sel9 :: "word16 \<Rightarrow> nat" where
  "sel9 instr = unat (drop_bit 9 instr AND 0x7)"

definition sel6 :: "word16 \<Rightarrow> nat" where
  "sel6 instr = unat (drop_bit 6 instr AND 0x7)"

definition sel0 :: "word16 \<Rightarrow> nat" where
  "sel0 instr = unat (instr AND 0x7)"

subsection \<open>The cases of the switch on the opcode\<close>

definition op_add :: "word16 \<Rightarrow> 'p vm \<Rightarrow> 'p vm" where
  "op_add instr s =
     (let r0 = sel9 instr; r1 = sel6 instr; imm_flag = drop_bit 5 instr AND 0x1 in
      if imm_flag \<noteq> 0 then
        (let imm5 = sign_extend (instr AND 0x1F) 5 in
         update_flags r0 (s\<lparr>reg := (reg s)(r0 := reg s r1 + imm5)\<rparr>))
      else
        (let r2 = sel0 instr in
         update_flags r0 (s\<lparr>reg := (reg s)(r0 := reg s r1 + reg s r2)\<rparr>)))"

definition op_and :: "word16 \<Rightarrow> 'p vm \<Rightarrow> 'p vm" where
  "op_and instr s =
     (let r0 = sel9 instr; r1 = sel6 instr; imm_flag = drop_bit 5 instr AND 0x1 in
      if imm_flag \<noteq> 0 then
        (let imm5 = sign_extend (instr AND 0x1F) 5 in
         update_flags r0 (s\<lparr>reg := (reg s)(r0 := reg s r1 AND imm5)\<rparr>))
      else
        (let r2 = sel0 instr in
         update_flags r0 (s\<lparr>reg := (reg s)(r0 := reg s r1 AND reg s r2)\<rparr>)))"

text \<open>The case \<open>OP_NOT\<close> of the source ends after the assignment: it has no call of
  \<open>update_flags\<close>.\<close>

definition op_not :: "word16 \<Rightarrow> 'p vm \<Rightarrow> 'p vm" where
  "op_not instr s =
     (let r0 = sel9 instr; r1 = sel6 instr in
      s\<lparr>reg := (reg s)(r0 := NOT (reg s r1))\<rparr>)"

definition op_br :: "word16 \<Rightarrow> 'p vm \<Rightarrow> 'p vm" where
  "op_br instr s =
     (let cond_flag = drop_bit 9 instr AND 0x7;
          pc_offset = sign_extend (instr AND 0x1FF) 9 in
      if cond_flag AND reg s R_COND \<noteq> 0
      then s\<lparr>reg := (reg s)(R_PC := reg s R_PC + pc_offset)\<rparr>
      else s)"

definition op_jmp :: "word16 \<Rightarrow> 'p vm \<Rightarrow> 'p vm" where
  "op_jmp instr s =
     (let r1 = sel6 instr in s\<lparr>reg := (reg s)(R_PC := reg s r1)\<rparr>)"

definition op_jsr :: "word16 \<Rightarrow> 'p vm \<Rightarrow> 'p vm" where
  "op_jsr instr s =
     (let s1 = s\<lparr>reg := (reg s)(R_R7 := reg s R_PC)\<rparr>;
          long_flag = drop_bit 11 instr AND 0x1 in
      if long_flag \<noteq> 0 then
        (let pc_offset = sign_extend (instr AND 0x7FF) 11 in
         s1\<lparr>reg := (reg s1)(R_PC := reg s1 R_PC + pc_offset)\<rparr>)
      else
        (let r1 = sel6 instr in s1\<lparr>reg := (reg s1)(R_PC := reg s1 r1)\<rparr>))"

definition op_ld :: "'p provider \<Rightarrow> word16 \<Rightarrow> 'p vm \<Rightarrow> 'p vm" where
  "op_ld P instr s =
     (let r0 = sel9 instr; pc_offset = sign_extend (instr AND 0x1FF) 9 in
      case mem_read P (reg s R_PC + pc_offset) s of
        (v, s1) \<Rightarrow> update_flags r0 (s1\<lparr>reg := (reg s1)(r0 := v)\<rparr>))"

text \<open>The case \<open>OP_LDI\<close> of the source calls \<open>mem_read\<close> once.\<close>

definition op_ldi :: "'p provider \<Rightarrow> word16 \<Rightarrow> 'p vm \<Rightarrow> 'p vm" where
  "op_ldi P instr s =
     (let r0 = sel9 instr; pc_offset = sign_extend (instr AND 0x1FF) 9 in
      case mem_read P (reg s R_PC + pc_offset) s of
        (v, s1) \<Rightarrow> update_flags r0 (s1\<lparr>reg := (reg s1)(r0 := v)\<rparr>))"

definition op_ldr :: "'p provider \<Rightarrow> word16 \<Rightarrow> 'p vm \<Rightarrow> 'p vm" where
  "op_ldr P instr s =
     (let r0 = sel9 instr; r1 = sel6 instr; pc_offset = sign_extend (instr AND 0x3F) 6 in
      case mem_read P (reg s r1 + pc_offset) s of
        (v, s1) \<Rightarrow> update_flags r0 (s1\<lparr>reg := (reg s1)(r0 := v)\<rparr>))"

definition op_lea :: "word16 \<Rightarrow> 'p vm \<Rightarrow> 'p vm" where
  "op_lea instr s =
     (let r0 = sel9 instr; pc_offset = sign_extend (instr AND 0x1FF) 9 in
      update_flags r0 (s\<lparr>reg := (reg s)(r0 := reg s R_PC + pc_offset)\<rparr>))"

definition op_st :: "word16 \<Rightarrow> 'p vm \<Rightarrow> 'p vm" where
  "op_st instr s =
     (let r0 = sel9 instr; pc_offset = sign_extend (instr AND 0x1FF) 9 in
      mem_write (reg s R_PC + pc_offset) (reg s r0) s)"

definition op_sti :: "'p provider \<Rightarrow> word16 \<Rightarrow> 'p vm \<Rightarrow> 'p vm" where
  "op_sti P instr s =
     (let r0 = sel9 instr; pc_offset = sign_extend (instr AND 0x1FF) 9 in
      case mem_read P (reg s R_PC + pc_offset) s of
        (a, s1) \<Rightarrow> mem_write a (reg s1 r0) s1)"

definition op_str :: "word16 \<Rightarrow> 'p vm \<Rightarrow> 'p vm" where
  "op_str instr s =
     (let r0 = sel9 instr; r1 = sel6 instr; pc_offset = sign_extend (instr AND 0x3F) 6 in
      mem_write (reg s r1 + pc_offset) (reg s r0) s)"

subsection \<open>Trap routines\<close>

text \<open>
  The loops of \<open>TRAP_PUTS\<close> and \<open>TRAP_PUTSP\<close> walk a pointer from
  \<open>memory + reg[R_R0]\<close> upwards until it meets a zero word. \<open>i\<close> is the pointer's
  offset into the array. Nothing stops the pointer at the end of the array: reading
  at offset 65536 is outside \<open>memory\<close>, and the model gives no result there.
\<close>

function puts_loop :: "(word16 \<Rightarrow> word16) \<Rightarrow> nat \<Rightarrow> 8 word list option" where
  "puts_loop mem i =
     (if 65536 \<le> i then None
      else if mem (of_nat i) = 0 then Some []
      else map_option (\<lambda>bs. ucast (mem (of_nat i)) # bs) (puts_loop mem (Suc i)))"
  by pat_completeness auto
termination
  by (relation "measure (\<lambda>(mem, i). 65536 - i)") auto

declare puts_loop.simps [simp del]

function putsp_loop :: "(word16 \<Rightarrow> word16) \<Rightarrow> nat \<Rightarrow> 8 word list option" where
  "putsp_loop mem i =
     (if 65536 \<le> i then None
      else if mem (of_nat i) = 0 then Some []
      else
        (let char1 = ucast (mem (of_nat i) AND 0xFF) :: 8 word;
             char2 = ucast (drop_bit 8 (mem (of_nat i))) :: 8 word in
         map_option (\<lambda>bs. (if char2 \<noteq> 0 then [char1, char2] else [char1]) @ bs)
           (putsp_loop mem (Suc i))))"
  by pat_completeness auto
termination
  by (relation "measure (\<lambda>(mem, i). 65536 - i)") auto

declare putsp_loop.simps [simp del]

definition bytes_of :: "string \<Rightarrow> 8 word list" where
  "bytes_of cs = map of_char cs"

definition trap_getc :: "'p provider \<Rightarrow> 'p vm \<Rightarrow> 'p vm" where
  "trap_getc P s =
     (case getchar P (prov s) of
        (c, p1) \<Rightarrow> update_flags R_R0 (s\<lparr>reg := (reg s)(R_R0 := word_of_int c), prov := p1\<rparr>))"

definition trap_out :: "'p vm \<Rightarrow> 'p vm" where
  "trap_out s = s\<lparr>stdout := stdout s @ [ucast (reg s R_R0)]\<rparr>"

definition trap_puts :: "'p vm \<Rightarrow> error + 'p vm" where
  "trap_puts s =
     (case puts_loop (memory s) (unat (reg s R_R0)) of
        None \<Rightarrow> Inl OutOfBounds
      | Some bs \<Rightarrow> Inr (s\<lparr>stdout := stdout s @ bs\<rparr>))"

text \<open>In \<open>TRAP_IN\<close> the byte read is held in a \<open>char c\<close>, which is signed on the
  compilers this Windows program builds with: \<open>(uint16_t)c\<close> extends its sign.\<close>

definition trap_in :: "'p provider \<Rightarrow> 'p vm \<Rightarrow> 'p vm" where
  "trap_in P s =
     (case getchar P (prov s) of
        (i, p1) \<Rightarrow>
          (let c = word_of_int i :: 8 word in
           update_flags R_R0
             (s\<lparr>reg := (reg s)(R_R0 := scast c),
               stdout := stdout s @ bytes_of ''Enter a character:'' @ [c],
               prov := p1\<rparr>)))"

definition trap_putsp :: "'p vm \<Rightarrow> error + 'p vm" where
  "trap_putsp s =
     (case putsp_loop (memory s) (unat (reg s R_R0)) of
        None \<Rightarrow> Inl OutOfBounds
      | Some bs \<Rightarrow> Inr (s\<lparr>stdout := stdout s @ bs\<rparr>))"

definition trap_halt :: "'p vm \<Rightarrow> 'p vm" where
  "trap_halt s = s\<lparr>stdout := stdout s @ bytes_of ''HALT'' @ [10], running := False\<rparr>"

text \<open>The inner switch on \<open>instr & 0xFF\<close> has six cases and no \<open>default\<close>.\<close>

definition op_trap :: "'p provider \<Rightarrow> word16 \<Rightarrow> 'p vm \<Rightarrow> error + 'p vm" where
  "op_trap P instr s =
     (let s1 = s\<lparr>reg := (reg s)(R_R7 := reg s R_PC)\<rparr>; v = instr AND 0xFF in
      if v = TRAP_GETC then Inr (trap_getc P s1)
      else if v = TRAP_OUT then Inr (trap_out s1)
      else if v = TRAP_PUTS then trap_puts s1
      else if v = TRAP_IN then Inr (trap_in P s1)
      else if v = TRAP_PUTSP then trap_putsp s1
      else if v = TRAP_HALT then Inr (trap_halt s1)
      else Inr s1)"

subsection \<open>The loop of main\<close>

text \<open>The switch on \<open>op = instr >> 12\<close>, in the order of the source.\<close>

definition execute :: "'p provider \<Rightarrow> word16 \<Rightarrow> 'p vm \<Rightarrow> error + 'p vm" where
  "execute P instr s =
     (let op = drop_bit 12 instr in
      if op = OP_ADD then Inr (op_add instr s)
      else if op = OP_AND then Inr (op_and instr s)
      else if op = OP_NOT then Inr (op_not instr s)
      else if op = OP_BR then Inr (op_br instr s)
      else if op = OP_JMP then Inr (op_jmp instr s)
      else if op = OP_JSR then Inr (op_jsr instr s)
      else if op = OP_LD then Inr (op_ld P instr s)
      else if op = OP_LDI then Inr (op_ldi P instr s)
      else if op = OP_LDR then Inr (op_ldr P instr s)
      else if op = OP_LEA then Inr (op_lea instr s)
      else if op = OP_ST then Inr (op_st instr s)
      else if op = OP_STI then Inr (op_sti P instr s)
      else if op = OP_STR then Inr (op_str instr s)
      else if op = OP_TRAP then op_trap P instr s
      else Inl Aborted)"

text \<open>\<open>instr = mem_read(reg[R_PC]++)\<close>: the read is at the old counter, and the
  counter is already incremented when \<open>mem_read\<close> runs.\<close>

definition fetch :: "'p provider \<Rightarrow> 'p vm \<Rightarrow> word16 \<times> 'p vm" where
  "fetch P s = mem_read P (reg s R_PC) (s\<lparr>reg := (reg s)(R_PC := reg s R_PC + 1)\<rparr>)"

definition step :: "'p provider \<Rightarrow> 'p vm \<Rightarrow> error + 'p vm" where
  "step P s = (case fetch P s of (instr, s1) \<Rightarrow> execute P instr s1)"

text \<open>\<open>while(running)\<close> may never end; \<open>run P n\<close> is the state after at most \<open>n\<close>
  iterations (fewer when \<open>running\<close> became 0), or the error that ended the process.\<close>

fun run :: "'p provider \<Rightarrow> nat \<Rightarrow> 'p vm \<Rightarrow> error + 'p vm" where
  "run P 0 s = Inr s"
| "run P (Suc n) s =
     (if running s then (case step P s of Inl e \<Rightarrow> Inl e | Inr s' \<Rightarrow> run P n s')
      else Inr s)"

text \<open>The state at the first test of \<open>while(running)\<close>: the images are in
  \<open>memory\<close>, the global \<open>reg\<close> is zero but for the two assignments of the setup.\<close>

definition init :: "(word16 \<Rightarrow> word16) \<Rightarrow> 'p \<Rightarrow> 'p vm" where
  "init mem p =
     \<lparr>memory = mem, reg = (\<lambda>_. 0)(R_COND := FL_ZRO, R_PC := PC_START),
      running = True, stdout = [], prov = p\<rparr>"

subsection \<open>Two concrete providers\<close>

text \<open>A scripted provider: its state is the list of answers \<open>check_key\<close> will give
  and the list of bytes \<open>getchar\<close> will deliver. With no answer left no key is ready,
  and with no byte left \<open>getchar\<close> returns \<open>EOF\<close>.\<close>

definition script :: "(bool list \<times> int list) provider" where
  "script =
     \<lparr>check_key = (\<lambda>(ks, cs). case ks of [] \<Rightarrow> (False, ([], cs)) | k # ks' \<Rightarrow> (k, (ks', cs))),
      getchar = (\<lambda>(ks, cs). case cs of [] \<Rightarrow> (- 1, (ks, [])) | c # cs' \<Rightarrow> (c, (ks, cs')))\<rparr>"



subsection \<open>Observations and predicates used in the statements\<close>

definition reg_of :: "nat \<Rightarrow> error + 'p vm \<Rightarrow> error + word16" where
  "reg_of r res = map_sum id (\<lambda>s. reg s r) res"

definition mem_of :: "word16 \<Rightarrow> error + 'p vm \<Rightarrow> error + word16" where
  "mem_of a res = map_sum id (\<lambda>s. memory s a) res"

text \<open>\<open>cond_step s s'\<close>: from \<open>s\<close> to \<open>s'\<close> the condition flags either kept their
  value, or \<open>s'\<close> is what a call of \<open>update_flags\<close> on a general register returned.\<close>

definition cond_step :: "'p vm \<Rightarrow> 'p vm \<Rightarrow> bool" where
  "cond_step s s' \<longleftrightarrow> reg s' R_COND = reg s R_COND \<or> (\<exists>r<8. \<exists>t. s' = update_flags r t)"

subsection \<open>Programs used as examples\<close>

text \<open>\<open>LDI R0, #1\<close> at 0x3000; the pointer cell 0x3002 holds 0x4000, and the cell
  0x4000 holds 0x002A.\<close>

definition ldi_mem :: "word16 \<Rightarrow> word16" where
  "ldi_mem = (\<lambda>_. 0)(0x3000 := 0xA001, 0x3002 := 0x4000, 0x4000 := 0x002A)"

text \<open>\<open>NOT R0, R0\<close> at 0x3000.\<close>

definition not_mem :: "word16 \<Rightarrow> word16" where
  "not_mem = (\<lambda>_. 0)(0x3000 := 0x903F)"

text \<open>\<open>TRAP 0x26\<close> at 0x3000, followed by zero words (\<open>BR\<close> with an empty mask).\<close>

definition trap_mem :: "word16 \<Rightarrow> word16" where
  "trap_mem = (\<lambda>_. 0)(0x3000 := 0xF026)"

text \<open>\<open>ADD R0, R0, #-1\<close> at 0x3000.\<close>

definition add_mem :: "word16 \<Rightarrow> word16" where
  "add_mem = (\<lambda>_. 0)(0x3000 := 0x103F)"

text \<open>\<open>RTI\<close> at 0x3000.\<close>

definition rti_mem :: "word16 \<Rightarrow> word16" where
  "rti_mem = (\<lambda>_. 0)(0x3000 := 0x8000)"

text \<open>The initial state with register 1 set to 5 and register 2 to 0xFFFF.\<close>

definition two_regs :: "(bool list \<times> int list) vm" where
  "two_regs =
     (init (\<lambda>_. 0) ([], []))
       \<lparr>reg := (reg (init (\<lambda>_. 0) ([], []) :: (bool list \<times> int list) vm))(1 := 5, 2 := 0xFFFF)\<rparr>"

subsection \<open>Two runs compared\<close>

text \<open>
  \<open>same_core s t\<close>: the two machine states agree on memory, registers, the loop flag
  and the bytes written so far; the providers' hidden states are left out, and may
  be of different types. \<open>same_answers R P Q\<close>: from provider states related by \<open>R\<close>,
  the providers \<open>P\<close> and \<open>Q\<close> give the same readiness answer and the same byte to
  every call, and their next states are related again; so they deliver the same
  sequence of answers, whatever else their hidden states hold. \<open>same_outcome\<close>
  compares the results of two runs: the same error, or states that agree.
\<close>

definition same_core :: "'p vm \<Rightarrow> 'q vm \<Rightarrow> bool" where
  "same_core s t \<longleftrightarrow>
     memory s = memory t \<and> reg s = reg t \<and> running s = running t \<and> stdout s = stdout t"


definition same_outcome ::
  "('p \<Rightarrow> 'q \<Rightarrow> bool) \<Rightarrow> error + 'p vm \<Rightarrow> error + 'q vm \<Rightarrow> bool" where
  "same_outcome R x y =
     (case x of
        Inl e \<Rightarrow> y = Inl e
      | Inr s \<Rightarrow> (case y of Inl e \<Rightarrow> False | Inr t \<Rightarrow> same_core s t \<and> R (prov s) (prov t)))"

definition sim :: "('p \<Rightarrow> 'q \<Rightarrow> bool) \<Rightarrow> 'p vm \<Rightarrow> 'q vm \<Rightarrow> bool" where
  "sim R s t \<longleftrightarrow> same_core s t \<and> R (prov s) (prov t)"



text \<open>\<open>JSR #2\<close> at 0x3000 calls the subroutine at 0x3003: \<open>ADD R0, R0, #1\<close> and
  \<open>JMP R7\<close>.\<close>

definition jsr_mem :: "word16 \<Rightarrow> word16" where
  "jsr_mem = (\<lambda>_. 0)(0x3000 := 0x4802, 0x3003 := 0x1021, 0x3004 := 0xC1C0)"

section \<open>Properties\<close>

lemmas enum_defs = MR_KBSR_def MR_KBDR_def TRAP_GETC_def TRAP_OUT_def TRAP_PUTS_def TRAP_IN_def
  TRAP_PUTSP_def TRAP_HALT_def R_R0_def R_R7_def R_PC_def R_COND_def R_COUNT_def
  FL_POS_def FL_ZRO_def FL_NEG_def OP_BR_def OP_ADD_def OP_LD_def OP_ST_def OP_JSR_def
  OP_AND_def OP_LDR_def OP_STR_def OP_RTI_def OP_NOT_def OP_LDI_def OP_STI_def OP_JMP_def
  OP_RES_def OP_LEA_def OP_TRAP_def PC_START_def

lemmas sel_defs = sel9_def sel6_def sel0_def

lemmas op_defs = op_add_def op_and_def op_not_def op_br_def op_jmp_def op_jsr_def op_ld_def
  op_ldi_def op_ldr_def op_lea_def op_st_def op_sti_def op_str_def

lemmas trap_defs = trap_getc_def trap_out_def trap_puts_def trap_in_def trap_putsp_def
  trap_halt_def

subsection \<open>Sign extension\<close>

lemma sign_bit_test: "(drop_bit n x AND 1 \<noteq> 0) = bit (x :: word16) n"
  by (simp add: bit_iff_and_drop_bit_eq_1 and_one_eq mod_2_eq_odd bit_iff_odd_drop_bit)

lemma ffff_mask: "(0xFFFF :: 32 word) = mask 16"
  by (simp add: mask_eq_exp_minus_1)

lemma fill_mask: "ucast (push_bit w (0xFFFF :: 32 word)) = (push_bit w (- 1) :: word16)"
  unfolding ffff_mask by (rule bit_word_eqI) (auto simp add: bit_simps)

lemma bit_sign_extend:
  "1 \<le> w \<Longrightarrow>
     bit (sign_extend x w) i = (if bit x (w - 1) \<and> w \<le> i then i < 16 else bit x i)"
  by (auto simp: sign_extend_def sign_bit_test fill_mask bit_simps dest: bit_imp_le_length)

text \<open>
  C4. For a width \<open>w\<close> in \<open>1..16\<close>: when bit \<open>w - 1\<close> of the input is set,
  \<open>sign_extend\<close> returns a word whose bits \<open>w..15\<close> are all 1 and whose low \<open>w\<close> bits
  are the input's; when that bit is clear and the input has no bit at or above \<open>w\<close>,
  the input comes back unchanged. The two examples of the specification hold.
\<close>

theorem sign_extend_spec:
  "1 \<le> w \<Longrightarrow> w \<le> 16 \<Longrightarrow>
     (bit x (w - 1) \<longrightarrow>
        (\<forall>i. w \<le> i \<and> i < 16 \<longrightarrow> bit (sign_extend x w) i) \<and>
        take_bit w (sign_extend x w) = take_bit w x) \<and>
     (\<not> bit x (w - 1) \<and> drop_bit w x = 0 \<longrightarrow> sign_extend x w = x) \<and>
     sign_extend 0x1F 5 = 0xFFFF \<and> sign_extend 0x0F 5 = 0x000F"
proof (intro conjI impI allI)
  fix i assume "1 \<le> w" "bit x (w - 1)" "w \<le> i \<and> i < 16"
  then show "bit (sign_extend x w) i" by (simp add: bit_sign_extend)
next
  assume "1 \<le> w" "bit x (w - 1)"
  then show "take_bit w (sign_extend x w) = take_bit w x"
    by (intro bit_word_eqI) (auto simp: bit_sign_extend bit_simps)
next
  assume "\<not> bit x (w - 1) \<and> drop_bit w x = 0"
  then show "sign_extend x w = x" by (simp add: sign_extend_def sign_bit_test)
next
  show "sign_extend 0x1F 5 = 0xFFFF" by (simp add: sign_extend_def)
next
  show "sign_extend 0x0F 5 = 0x000F" by (simp add: sign_extend_def)
qed

theorem sign_extend_spec_witness:
  "(1::nat) \<le> 5 \<and> (5::nat) \<le> 16 \<and> bit (0x15 :: word16) (5 - 1) \<and>
   bit (sign_extend 0x15 5) 5 \<and> bit (sign_extend 0x15 5) 15 \<and>
   take_bit 5 (sign_extend 0x15 5) = take_bit 5 (0x15 :: word16) \<and>
   sign_extend 0x15 5 = 0xFFF5 \<and>
   \<not> bit (0x0A :: word16) (5 - 1) \<and> drop_bit 5 (0x0A :: word16) = 0 \<and>
   sign_extend 0x0A 5 = 0x0A"
  using sign_extend_spec [of 5 "0x15"] sign_extend_spec [of 5 "0x0A"]
  by (simp add: sign_extend_def)


subsection \<open>Register selectors and the register array\<close>

lemma and7_lt8: "unat ((x :: word16) AND 0x7) < 8"
proof -
  have "x AND 7 \<le> 7" by (rule word_and_le1)
  then have "unat (x AND 7) \<le> unat (7 :: word16)" by (simp only: word_le_nat_alt)
  then show ?thesis by simp
qed

lemma sel_lt8: "sel9 i < 8" "sel6 i < 8" "sel0 i < 8"
  by (simp_all add: sel_defs and7_lt8)

lemma sel_ne:
  "sel9 i \<noteq> R_PC" "sel9 i \<noteq> R_COND" "R_PC \<noteq> sel9 i" "R_COND \<noteq> sel9 i"
  "sel6 i \<noteq> R_PC" "sel6 i \<noteq> R_COND" "R_PC \<noteq> sel6 i" "R_COND \<noteq> sel6 i"
  "sel0 i \<noteq> R_PC" "sel0 i \<noteq> R_COND" "R_PC \<noteq> sel0 i" "R_COND \<noteq> sel0 i"
  using sel_lt8 [of i] by (auto simp: R_PC_def R_COND_def)

lemma reg_ne:
  "R_R0 \<noteq> R_PC" "R_R0 \<noteq> R_COND" "R_R7 \<noteq> R_PC" "R_R7 \<noteq> R_COND" "R_PC \<noteq> R_COND"
  "R_PC \<noteq> R_R0" "R_COND \<noteq> R_R0" "R_PC \<noteq> R_R7" "R_COND \<noteq> R_R7" "R_COND \<noteq> R_PC"
  "R_R0 < 8" "R_R7 < 8"
  by (simp_all add: R_R0_def R_R7_def R_PC_def R_COND_def)

subsection \<open>Reading memory\<close>

lemma mem_read_keeps:
  "reg (snd (mem_read P a s)) = reg s"
  "running (snd (mem_read P a s)) = running s"
  "stdout (snd (mem_read P a s)) = stdout s"
  by (simp_all add: mem_read_def Let_def split: prod.splits)

lemma mem_read_plain: "a \<noteq> MR_KBSR \<Longrightarrow> mem_read P a s = (memory s a, s)"
  by (simp add: mem_read_def)

text \<open>
  C7. \<open>mem_read\<close> changes the state only at the keyboard-status address: at every
  other address, the data register \<open>MR_KBDR\<close> included, it returns \<open>memory[address]\<close>
  and the state as it was. At \<open>MR_KBSR\<close> it polls the provider; with a key ready the
  status word becomes 0x8000 and the data register receives what \<open>getchar\<close> returned,
  otherwise the status word becomes 0. The value returned is the content of the
  address after that, and no register changes.
\<close>

theorem mem_read_frame:
  "(a \<noteq> MR_KBSR \<longrightarrow> mem_read P a s = (memory s a, s)) \<and>
   (a = MR_KBSR \<and> fst (check_key P (prov s)) \<longrightarrow>
      memory (snd (mem_read P a s)) =
        (memory s)(MR_KBSR := 0x8000,
                   MR_KBDR := word_of_int (fst (getchar P (snd (check_key P (prov s))))))) \<and>
   (a = MR_KBSR \<and> \<not> fst (check_key P (prov s)) \<longrightarrow>
      memory (snd (mem_read P a s)) = (memory s)(MR_KBSR := 0)) \<and>
   fst (mem_read P a s) = memory (snd (mem_read P a s)) a \<and>
   reg (snd (mem_read P a s)) = reg s \<and>
   MR_KBDR \<noteq> MR_KBSR"
  by (simp add: mem_read_def Let_def MR_KBSR_def MR_KBDR_def split: prod.splits)

theorem mem_read_frame_witness:
  "MR_KBDR \<noteq> MR_KBSR \<and>
   mem_read script MR_KBDR (init ldi_mem ([True], [0x41])) = (0, init ldi_mem ([True], [0x41])) \<and>
   fst (check_key script (prov (init ldi_mem ([True], [0x41])))) \<and>
   fst (mem_read script MR_KBSR (init ldi_mem ([True], [0x41]))) = 0x8000 \<and>
   memory (snd (mem_read script MR_KBSR (init ldi_mem ([True], [0x41])))) MR_KBDR = 0x41 \<and>
   \<not> fst (check_key script (prov (init ldi_mem ([False], [0x41])))) \<and>
   fst (mem_read script MR_KBSR (init ldi_mem ([False], [0x41]))) = 0 \<and>
   memory (snd (mem_read script MR_KBSR (init ldi_mem ([False], [0x41])))) MR_KBDR = 0"
  using mem_read_frame [of MR_KBDR script "init ldi_mem ([True], [0x41])"]
    mem_read_frame [of MR_KBSR script "init ldi_mem ([True], [0x41])"]
    mem_read_frame [of MR_KBSR script "init ldi_mem ([False], [0x41])"]
  by (simp add: script_def init_def ldi_mem_def MR_KBSR_def MR_KBDR_def)

lemma fetch_keeps:
  "reg (snd (fetch P s)) = (reg s)(R_PC := reg s R_PC + 1)"
  "running (snd (fetch P s)) = running s"
  "stdout (snd (fetch P s)) = stdout s"
  by (simp_all add: fetch_def mem_read_keeps)

subsection \<open>Condition flags\<close>

lemma update_flags_sel:
  "reg (update_flags r s) =
     (reg s)(R_COND := (if reg s r = 0 then FL_ZRO
                        else if drop_bit 15 (reg s r) \<noteq> 0 then FL_NEG else FL_POS))"
  "memory (update_flags r s) = memory s"
  "running (update_flags r s) = running s"
  "stdout (update_flags r s) = stdout s"
  "prov (update_flags r s) = prov s"
  by (simp_all add: update_flags_def)

lemma cond_step_same: "reg s' R_COND = reg s R_COND \<Longrightarrow> cond_step s s'"
  by (simp add: cond_step_def)

lemma cond_step_flags: "r < 8 \<Longrightarrow> cond_step s (update_flags r t)"
  unfolding cond_step_def by blast

lemma op_trap_cond: "op_trap P instr s = Inr s' \<Longrightarrow> cond_step s s'"
  unfolding op_trap_def Let_def
  by (auto simp: trap_defs Let_def case_prod_beta reg_ne cond_step_flags cond_step_same
      split: if_splits option.splits)

lemma execute_cond: "execute P instr s = Inr s' \<Longrightarrow> cond_step s s'"
  unfolding execute_def Let_def
  by (auto simp: op_defs mem_write_def mem_read_keeps Let_def case_prod_beta reg_ne sel_ne
      sel_lt8 cond_step_flags cond_step_same op_trap_cond split: if_splits)

lemma op_trap_pc: "op_trap P instr s = Inr s' \<Longrightarrow> reg s' R_PC = reg s R_PC"
  unfolding op_trap_def Let_def
  by (auto simp: trap_defs Let_def case_prod_beta reg_ne update_flags_sel
      split: if_splits option.splits)

lemma execute_pc:
  "execute P instr s = Inr s' \<Longrightarrow> drop_bit 12 instr \<notin> {OP_BR, OP_JMP, OP_JSR} \<Longrightarrow>
     reg s' R_PC = reg s R_PC"
  unfolding execute_def Let_def
  by (auto simp: op_defs mem_write_def mem_read_keeps Let_def case_prod_beta reg_ne sel_ne
      update_flags_sel op_trap_pc split: if_splits)

lemma step_cond: "step P s = Inr s' \<Longrightarrow> cond_step s s'"
proof -
  assume "step P s = Inr s'"
  then have "cond_step (snd (fetch P s)) s'"
    by (simp add: step_def case_prod_beta execute_cond)
  then show ?thesis by (simp add: cond_step_def fetch_keeps reg_ne)
qed

lemma flags_distinct: "distinct [FL_NEG, FL_ZRO, FL_POS]"
  by (simp add: FL_NEG_def FL_ZRO_def FL_POS_def)

lemma update_flags_in: "reg (update_flags r s) R_COND \<in> {FL_NEG, FL_ZRO, FL_POS}"
  by (simp add: update_flags_sel)

lemma step_flag_inv:
  "reg s R_COND \<in> {FL_NEG, FL_ZRO, FL_POS} \<Longrightarrow> step P s = Inr s' \<Longrightarrow>
     reg s' R_COND \<in> {FL_NEG, FL_ZRO, FL_POS}"
  using step_cond [of P s s'] update_flags_in unfolding cond_step_def by metis

lemma run_flag_inv:
  "reg s R_COND \<in> {FL_NEG, FL_ZRO, FL_POS} \<Longrightarrow> run P n s = Inr s' \<Longrightarrow>
     reg s' R_COND \<in> {FL_NEG, FL_ZRO, FL_POS}"
proof (induction n arbitrary: s)
  case 0
  then show ?case by simp
next
  case (Suc n)
  show ?case
  proof (cases "running s")
    case True
    with Suc.prems obtain s1 where s1: "step P s = Inr s1" "run P n s1 = Inr s'"
      by (auto split: sum.splits)
    from step_flag_inv [OF Suc.prems(1) s1(1)] Suc.IH s1(2) show ?thesis by blast
  next
    case False
    with Suc.prems show ?thesis by simp
  qed
qed


lemmas eval_defs = step_def fetch_def mem_read_def init_def execute_def update_flags_def
  sign_extend_def mem_write_def op_trap_def reg_of_def mem_of_def Let_def

lemma run_numeral:
  "run P (numeral k) s =
     (if running s then (case step P s of Inl e \<Rightarrow> Inl e | Inr s' \<Rightarrow> run P (pred_numeral k) s')
      else Inr s)"
  by (simp add: numeral_eq_Suc)

text \<open>
  C1. \<open>LDI R0, #1\<close> at 0x3000 with \<open>Memory[0x3002] = 0x4000\<close> and
  \<open>Memory[0x4000] = 0x002A\<close>: the case \<open>OP_LDI\<close> reads memory once, so register 0
  receives the pointer 0x4000 and not the value 0x002A it points to.
\<close>

theorem ldi_reads_once:
  "reg_of R_R0 (step script (init ldi_mem ([], []))) = Inr 0x4000 \<and>
   mem_of 0x3002 (step script (init ldi_mem ([], []))) = Inr 0x4000 \<and>
   mem_of 0x4000 (step script (init ldi_mem ([], []))) = Inr 0x002A \<and>
   reg_of R_PC (step script (init ldi_mem ([], []))) = Inr 0x3001"
  by (simp add: eval_defs op_defs ldi_mem_def enum_defs sel_defs)

text \<open>
  C2. \<open>NOT R0, R0\<close> from the initial state (register 0 is 0, the flags are
  \<open>FL_ZRO\<close>): register 0 becomes 0xFFFF, a negative value, and the condition
  flags are still \<open>FL_ZRO\<close>, since the case \<open>OP_NOT\<close> does not call \<open>update_flags\<close>.
\<close>

theorem not_keeps_flags:
  "reg_of R_R0 (step script (init not_mem ([], []))) = Inr 0xFFFF \<and>
   reg_of R_COND (step script (init not_mem ([], []))) = Inr FL_ZRO \<and>
   FL_ZRO \<noteq> FL_NEG"
  by (simp add: eval_defs op_defs not_mem_def enum_defs sel_defs)

subsection \<open>Which steps end in abort\<close>

lemma opcode_lt16: "unat (drop_bit 12 (i :: word16)) < 16"
proof -
  have "unat i < 2 ^ 16" using unsigned_less [of i] by simp
  then have "unat i div 2 ^ 12 < 16" by simp
  then show ?thesis by (simp add: drop_bit_eq_div unat_div)
qed

lemma opcode_cases:
  "drop_bit 12 (i :: word16) \<in> {OP_BR, OP_ADD, OP_LD, OP_ST, OP_JSR, OP_AND, OP_LDR, OP_STR,
     OP_RTI, OP_NOT, OP_LDI, OP_STI, OP_JMP, OP_RES, OP_LEA, OP_TRAP}"
proof -
  let ?n = "unat (drop_bit 12 i)"
  have "?n < 16" by (rule opcode_lt16)
  then have "?n = 0 \<or> ?n = 1 \<or> ?n = 2 \<or> ?n = 3 \<or> ?n = 4 \<or> ?n = 5 \<or> ?n = 6 \<or> ?n = 7 \<or>
      ?n = 8 \<or> ?n = 9 \<or> ?n = 10 \<or> ?n = 11 \<or> ?n = 12 \<or> ?n = 13 \<or> ?n = 14 \<or> ?n = 15"
    by arith
  moreover have "drop_bit 12 i = of_nat ?n" by simp
  ultimately show ?thesis
    by (elim disjE) (simp_all add: enum_defs)
qed

lemma op_trap_not_aborted: "op_trap P instr s \<noteq> Inl Aborted"
  by (simp add: op_trap_def Let_def trap_puts_def trap_putsp_def split: option.splits)

lemma execute_aborted:
  "(execute P instr s = Inl Aborted) = (drop_bit 12 instr \<in> {OP_RTI, OP_RES})"
proof
  assume "drop_bit 12 instr \<in> {OP_RTI, OP_RES}"
  then show "execute P instr s = Inl Aborted"
    by (auto simp add: execute_def Let_def enum_defs)
next
  assume a: "execute P instr s = Inl Aborted"
  have "drop_bit 12 instr = OP_BR \<or> drop_bit 12 instr = OP_ADD \<or> drop_bit 12 instr = OP_LD \<or>
      drop_bit 12 instr = OP_ST \<or> drop_bit 12 instr = OP_JSR \<or> drop_bit 12 instr = OP_AND \<or>
      drop_bit 12 instr = OP_LDR \<or> drop_bit 12 instr = OP_STR \<or> drop_bit 12 instr = OP_RTI \<or>
      drop_bit 12 instr = OP_NOT \<or> drop_bit 12 instr = OP_LDI \<or> drop_bit 12 instr = OP_STI \<or>
      drop_bit 12 instr = OP_JMP \<or> drop_bit 12 instr = OP_RES \<or> drop_bit 12 instr = OP_LEA \<or>
      drop_bit 12 instr = OP_TRAP"
    using opcode_cases [of instr] by simp
  then show "drop_bit 12 instr \<in> {OP_RTI, OP_RES}"
    using a
    by (elim disjE) (simp_all add: execute_def Let_def enum_defs op_trap_not_aborted)
qed

text \<open>
  C3, as stated, fails: \<open>TRAP 0x26\<close> at 0x3000 does not abort. The loop goes on to
  fetch the next instruction, with the return address in register 7.
\<close>

theorem trap_unknown_not_fatal:
  "step script (init trap_mem ([], [])) \<noteq> Inl Aborted \<and>
   reg_of R_R7 (run script 2 (init trap_mem ([], []))) = Inr 0x3001 \<and>
   reg_of R_PC (run script 2 (init trap_mem ([], []))) = Inr 0x3002"
  by (simp add: eval_defs op_defs trap_mem_def enum_defs sel_defs run_numeral)

text \<open>
  C3, amended. A \<open>TRAP\<close> whose vector is none of the six of the inner switch copies
  the incremented program counter into register 7, changes nothing else and lets the
  loop continue. A step ends in \<open>abort()\<close> when the opcode is \<open>RTI\<close> or \<open>RES\<close>, and
  only then: no other opcode, and no trap vector, aborts.
\<close>

theorem trap_unknown_vector:
  "fetch P s = (instr, s1) \<Longrightarrow>
     (drop_bit 12 instr = OP_TRAP \<and>
      instr AND 0xFF \<notin> {TRAP_GETC, TRAP_OUT, TRAP_PUTS, TRAP_IN, TRAP_PUTSP, TRAP_HALT} \<longrightarrow>
        step P s = Inr (s1\<lparr>reg := (reg s1)(R_R7 := reg s1 R_PC)\<rparr>)) \<and>
     (drop_bit 12 instr \<in> {OP_RTI, OP_RES} \<longrightarrow> step P s = Inl Aborted) \<and>
     (step P s = Inl Aborted \<longrightarrow> drop_bit 12 instr \<in> {OP_RTI, OP_RES})"
proof -
  assume f: "fetch P s = (instr, s1)"
  then have st: "step P s = execute P instr s1" by (simp add: step_def)
  have a: "drop_bit 12 instr = OP_TRAP \<and>
      instr AND 0xFF \<notin> {TRAP_GETC, TRAP_OUT, TRAP_PUTS, TRAP_IN, TRAP_PUTSP, TRAP_HALT} \<longrightarrow>
        step P s = Inr (s1\<lparr>reg := (reg s1)(R_R7 := reg s1 R_PC)\<rparr>)"
    unfolding st by (auto simp: execute_def op_trap_def Let_def enum_defs)
  have b: "(step P s = Inl Aborted) = (drop_bit 12 instr \<in> {OP_RTI, OP_RES})"
    unfolding st by (rule execute_aborted)
  from a b show ?thesis by blast
qed

theorem trap_unknown_vector_witness:
  "fetch script (init trap_mem ([], [])) = (0xF026, snd (fetch script (init trap_mem ([], [])))) \<and>
   drop_bit 12 (0xF026 :: word16) = OP_TRAP \<and>
   (0xF026 :: word16) AND 0xFF \<notin> {TRAP_GETC, TRAP_OUT, TRAP_PUTS, TRAP_IN, TRAP_PUTSP, TRAP_HALT} \<and>
   step script (init trap_mem ([], [])) =
     Inr ((snd (fetch script (init trap_mem ([], []))))
            \<lparr>reg := (reg (snd (fetch script (init trap_mem ([], [])))))(R_R7 := 0x3001)\<rparr>) \<and>
   fetch script (init rti_mem ([], [])) = (0x8000, snd (fetch script (init rti_mem ([], [])))) \<and>
   drop_bit 12 (0x8000 :: word16) \<in> {OP_RTI, OP_RES} \<and>
   step script (init rti_mem ([], [])) = Inl Aborted \<and>
   fetch script (init add_mem ([], [])) = (0x103F, snd (fetch script (init add_mem ([], [])))) \<and>
   drop_bit 12 (0x103F :: word16) \<notin> {OP_RTI, OP_RES} \<and>
   step script (init add_mem ([], [])) \<noteq> Inl Aborted"
proof -
  have f1: "fetch script (init trap_mem ([], [])) = (0xF026, snd (fetch script (init trap_mem ([], []))))"
    and f2: "fetch script (init rti_mem ([], [])) = (0x8000, snd (fetch script (init rti_mem ([], []))))"
    and f3: "fetch script (init add_mem ([], [])) = (0x103F, snd (fetch script (init add_mem ([], []))))"
    by (simp_all add: fetch_def mem_read_def init_def trap_mem_def rti_mem_def add_mem_def enum_defs)
  have o: "drop_bit 12 (0xF026 :: word16) = OP_TRAP"
    "(0xF026 :: word16) AND 0xFF \<notin> {TRAP_GETC, TRAP_OUT, TRAP_PUTS, TRAP_IN, TRAP_PUTSP, TRAP_HALT}"
    "drop_bit 12 (0x8000 :: word16) \<in> {OP_RTI, OP_RES}"
    "drop_bit 12 (0x103F :: word16) \<notin> {OP_RTI, OP_RES}"
    by (simp_all add: enum_defs)
  have r: "reg (snd (fetch script (init trap_mem ([], [])))) R_PC = 0x3001"
    by (simp add: fetch_def mem_read_def init_def trap_mem_def enum_defs)
  from trap_unknown_vector [OF f1] trap_unknown_vector [OF f2] trap_unknown_vector [OF f3]
    f1 f2 f3 o r
  show ?thesis by (simp add: enum_defs)
qed

text \<open>
  C5. The three flag values are distinct, the setup stores \<open>FL_ZRO\<close>, every step of
  the loop that returns a state keeps the condition-flag register in
  \<open>{FL_NEG, FL_ZRO, FL_POS}\<close>, and so does every run from the initial state.
\<close>

theorem flags_invariant:
  "distinct [FL_NEG, FL_ZRO, FL_POS] \<and>
   reg (init mem p) R_COND = FL_ZRO \<and>
   (reg s R_COND \<in> {FL_NEG, FL_ZRO, FL_POS} \<and> step P s = Inr s' \<longrightarrow>
      reg s' R_COND \<in> {FL_NEG, FL_ZRO, FL_POS}) \<and>
   (run P n (init mem p) = Inr s'' \<longrightarrow> reg s'' R_COND \<in> {FL_NEG, FL_ZRO, FL_POS})"
proof -
  have i: "reg (init mem p) R_COND = FL_ZRO"
    by (simp add: init_def R_COND_def R_PC_def)
  then have "reg (init mem p) R_COND \<in> {FL_NEG, FL_ZRO, FL_POS}" by simp
  then have "run P n (init mem p) = Inr s'' \<longrightarrow> reg s'' R_COND \<in> {FL_NEG, FL_ZRO, FL_POS}"
    using run_flag_inv by blast
  with i flags_distinct step_flag_inv [of s P s'] show ?thesis by blast
qed

theorem flags_invariant_witness:
  "reg (init add_mem ([], [])) R_COND \<in> {FL_NEG, FL_ZRO, FL_POS} \<and>
   step script (init add_mem ([], [])) = Inr (projr (step script (init add_mem ([], [])))) \<and>
   reg (projr (step script (init add_mem ([], [])))) R_COND \<in> {FL_NEG, FL_ZRO, FL_POS} \<and>
   reg (projr (step script (init add_mem ([], [])))) R_COND = FL_NEG \<and>
   run script 2 (init add_mem ([], [])) = Inr (projr (run script 2 (init add_mem ([], [])))) \<and>
   reg (projr (run script 2 (init add_mem ([], [])))) R_COND \<in> {FL_NEG, FL_ZRO, FL_POS}"
  using flags_invariant [of add_mem "([], [])" "init add_mem ([], [])" script
      "projr (step script (init add_mem ([], [])))" 2
      "projr (run script 2 (init add_mem ([], [])))"]
  by (simp add: eval_defs op_defs add_mem_def enum_defs sel_defs run_numeral)

text \<open>
  C10. The three register selectors of an instruction are below 8, while the program
  counter and the condition flags are at indices 8 and 9 of \<open>reg\<close>. In a step, the
  program counter is the old one plus 1 unless the opcode is \<open>BR\<close>, \<open>JMP\<close> or
  \<open>JSR\<close>, and the condition flags are either unchanged or the state is the result of
  \<open>update_flags\<close> on a general register.
\<close>

theorem selectors_and_special_registers:
  "sel9 instr < 8 \<and> sel6 instr < 8 \<and> sel0 instr < 8 \<and> R_PC = 8 \<and> R_COND = 9 \<and>
   (step P s = Inr s' \<longrightarrow>
      (drop_bit 12 (fst (fetch P s)) \<notin> {OP_BR, OP_JMP, OP_JSR} \<longrightarrow>
         reg s' R_PC = reg s R_PC + 1) \<and>
      (reg s' R_COND = reg s R_COND \<or> (\<exists>r<8. \<exists>t. s' = update_flags r t)))"
proof (intro conjI impI)
  assume st: "step P s = Inr s'"
  then show "reg s' R_COND = reg s R_COND \<or> (\<exists>r<8. \<exists>t. s' = update_flags r t)"
    using step_cond [of P s s'] by (simp add: cond_step_def)
  assume "drop_bit 12 (fst (fetch P s)) \<notin> {OP_BR, OP_JMP, OP_JSR}"
  with st have "reg s' R_PC = reg (snd (fetch P s)) R_PC"
    using execute_pc [of P "fst (fetch P s)" "snd (fetch P s)" s']
    by (simp add: step_def case_prod_beta)
  then show "reg s' R_PC = reg s R_PC + 1" by (simp add: fetch_keeps)
qed (simp_all add: sel_lt8 R_PC_def R_COND_def)

theorem selectors_and_special_registers_witness:
  "sel9 0x103F < 8 \<and>
   step script (init add_mem ([], [])) = Inr (projr (step script (init add_mem ([], [])))) \<and>
   drop_bit 12 (fst (fetch script (init add_mem ([], [])))) \<notin> {OP_BR, OP_JMP, OP_JSR} \<and>
   reg (projr (step script (init add_mem ([], [])))) R_PC = reg (init add_mem ([], [])) R_PC + 1 \<and>
   reg (projr (step script (init add_mem ([], [])))) R_PC = 0x3001 \<and>
   reg (projr (step script (init add_mem ([], [])))) R_COND = FL_NEG"
  using selectors_and_special_registers [of "0x103F" script "init add_mem ([], [])"
      "projr (step script (init add_mem ([], [])))"]
  by (simp add: eval_defs op_defs add_mem_def enum_defs sel_defs)



subsection \<open>Immediate and register mode\<close>

text \<open>
  C6. Let \<open>ii\<close> be an \<open>ADD\<close> (or an \<open>AND\<close>) in immediate mode and \<open>ir\<close> the same
  opcode in register mode, with the same destination and first source register. When
  the second source register of \<open>ir\<close> holds the sign-extended 5-bit immediate of
  \<open>ii\<close>, both execute to the same state from every state: the same destination
  value and the same condition flags.
\<close>

theorem add_and_modes:
  assumes "op = OP_ADD \<or> op = OP_AND"
    and "drop_bit 12 ii = op" and "drop_bit 12 ir = op"
    and "drop_bit 5 ii AND 1 \<noteq> 0" and "drop_bit 5 ir AND 1 = 0"
    and "sel9 ii = sel9 ir" and "sel6 ii = sel6 ir"
    and "reg s (sel0 ir) = sign_extend (ii AND 0x1F) 5"
  shows "\<exists>si sr. execute P ii s = Inr si \<and> execute P ir s = Inr sr \<and>
           reg si (sel9 ii) = reg sr (sel9 ir) \<and> reg si R_COND = reg sr R_COND \<and> si = sr"
proof -
  from assms(1) show ?thesis
  proof
    assume "op = OP_ADD"
    with assms show ?thesis
      by (simp add: execute_def op_add_def Let_def)
  next
    assume "op = OP_AND"
    with assms show ?thesis
      by (simp add: execute_def op_and_def Let_def OP_ADD_def OP_AND_def)
  qed
qed

theorem add_and_modes_witness:
  "drop_bit 12 (0x107F :: word16) = OP_ADD \<and> drop_bit 12 (0x1042 :: word16) = OP_ADD \<and>
   drop_bit 5 (0x107F :: word16) AND 1 \<noteq> 0 \<and> drop_bit 5 (0x1042 :: word16) AND 1 = 0 \<and>
   sel9 0x107F = sel9 0x1042 \<and> sel6 0x107F = sel6 0x1042 \<and>
   reg two_regs (sel0 0x1042) = sign_extend (0x107F AND 0x1F) 5 \<and>
   reg_of R_R0 (execute script 0x107F two_regs) = Inr 4 \<and>
   reg_of R_COND (execute script 0x107F two_regs) = Inr FL_POS \<and>
   execute script 0x107F two_regs = execute script 0x1042 two_regs \<and>
   drop_bit 12 (0x507F :: word16) = OP_AND \<and> drop_bit 12 (0x5042 :: word16) = OP_AND \<and>
   reg_of R_R0 (execute script 0x507F two_regs) = Inr 5 \<and>
   execute script 0x507F two_regs = execute script 0x5042 two_regs"
proof -
  have h: "OP_ADD = OP_ADD \<or> OP_ADD = OP_AND"
    "drop_bit 12 (0x107F :: word16) = OP_ADD" "drop_bit 12 (0x1042 :: word16) = OP_ADD"
    "drop_bit 5 (0x107F :: word16) AND 1 \<noteq> 0" "drop_bit 5 (0x1042 :: word16) AND 1 = 0"
    "sel9 0x107F = sel9 0x1042" "sel6 0x107F = sel6 0x1042"
    "reg two_regs (sel0 0x1042) = sign_extend (0x107F AND 0x1F) 5"
    by (simp_all add: enum_defs sel_defs two_regs_def init_def sign_extend_def)
  have g: "OP_AND = OP_ADD \<or> OP_AND = OP_AND"
    "drop_bit 12 (0x507F :: word16) = OP_AND" "drop_bit 12 (0x5042 :: word16) = OP_AND"
    "drop_bit 5 (0x507F :: word16) AND 1 \<noteq> 0" "drop_bit 5 (0x5042 :: word16) AND 1 = 0"
    "sel9 0x507F = sel9 0x5042" "sel6 0x507F = sel6 0x5042"
    "reg two_regs (sel0 0x5042) = sign_extend (0x507F AND 0x1F) 5"
    by (simp_all add: enum_defs sel_defs two_regs_def init_def sign_extend_def)
  have e: "execute script 0x107F two_regs = execute script 0x1042 two_regs"
    using add_and_modes [OF h, of script] by auto
  have e': "execute script 0x507F two_regs = execute script 0x5042 two_regs"
    using add_and_modes [OF g, of script] by auto
  have o: "reg_of R_R0 (execute script 0x107F two_regs) = Inr 4"
    "reg_of R_COND (execute script 0x107F two_regs) = Inr FL_POS"
    "reg_of R_R0 (execute script 0x507F two_regs) = Inr 5"
    by (simp_all add: eval_defs op_add_def op_and_def two_regs_def enum_defs sel_defs)
  from h g e e' o show ?thesis by simp
qed

subsection \<open>Subroutine call and return\<close>

lemma step_jsr:
  assumes "fetch P s = (instr, s1)" "drop_bit 12 instr = OP_JSR"
  shows "step P s = Inr (op_jsr instr s1)" "reg (op_jsr instr s1) R_R7 = reg s R_PC + 1"
proof -
  show "step P s = Inr (op_jsr instr s1)"
    using assms by (simp add: step_def execute_def Let_def enum_defs)
  have "reg s1 = (reg s)(R_PC := reg s R_PC + 1)"
    using fetch_keeps(1) [of P s] assms(1) by simp
  then show "reg (op_jsr instr s1) R_R7 = reg s R_PC + 1"
    by (simp add: op_jsr_def Let_def reg_ne)
qed

lemma step_jmp_r7:
  assumes "fetch P t = (jmp, t1)" "drop_bit 12 jmp = OP_JMP" "sel6 jmp = R_R7"
  shows "step P t = Inr (op_jmp jmp t1)" "reg (op_jmp jmp t1) R_PC = reg t R_R7"
proof -
  show "step P t = Inr (op_jmp jmp t1)"
    using assms by (simp add: step_def execute_def Let_def enum_defs)
  have "reg t1 = (reg t)(R_PC := reg t R_PC + 1)"
    using fetch_keeps(1) [of P t] assms(1) by simp
  then show "reg (op_jmp jmp t1) R_PC = reg t R_R7"
    using assms(3) by (simp add: op_jmp_def Let_def reg_ne)
qed

text \<open>
  C8. A step that fetches a \<open>JSR\<close> (or \<open>JSRR\<close>) returns a state whose register 7
  is the incremented program counter, the address after the \<open>JSR\<close>. From that state,
  after any number of iterations that end in a state where register 7 still has that
  value and where the instruction fetched is \<open>JMP R7\<close>, the next step returns a state
  whose program counter is the address after the \<open>JSR\<close>.
\<close>

theorem jsr_then_ret:
  "fetch P s = (instr, s1) \<Longrightarrow> drop_bit 12 instr = OP_JSR \<Longrightarrow>
     \<exists>s2. step P s = Inr s2 \<and> reg s2 R_R7 = reg s R_PC + 1 \<and>
       (\<forall>n t jmp t1.
          run P n s2 = Inr t \<and> reg t R_R7 = reg s2 R_R7 \<and>
          fetch P t = (jmp, t1) \<and> drop_bit 12 jmp = OP_JMP \<and> sel6 jmp = R_R7 \<longrightarrow>
            (\<exists>t'. step P t = Inr t' \<and> reg t' R_PC = reg s R_PC + 1))"
proof -
  assume f: "fetch P s = (instr, s1)" and o: "drop_bit 12 instr = OP_JSR"
  note j = step_jsr [OF f o]
  have "\<exists>t'. step P t = Inr t' \<and> reg t' R_PC = reg s R_PC + 1"
    if "reg t R_R7 = reg (op_jsr instr s1) R_R7" "fetch P t = (jmp, t1)"
      "drop_bit 12 jmp = OP_JMP" "sel6 jmp = R_R7" for t jmp t1
    using step_jmp_r7 [OF that(2,3,4)] that(1) j(2) by simp
  with j show ?thesis by blast
qed

theorem jsr_then_ret_witness:
  "fetch script (init jsr_mem ([], [])) = (0x4802, snd (fetch script (init jsr_mem ([], [])))) \<and>
   drop_bit 12 (0x4802 :: word16) = OP_JSR \<and>
   reg_of R_R7 (step script (init jsr_mem ([], []))) = Inr 0x3001 \<and>
   reg_of R_PC (step script (init jsr_mem ([], []))) = Inr 0x3003 \<and>
   reg_of R_R7 (run script 1 (projr (step script (init jsr_mem ([], []))))) = Inr 0x3001 \<and>
   reg_of R_PC (run script 1 (projr (step script (init jsr_mem ([], []))))) = Inr 0x3004 \<and>
   fetch script (projr (run script 1 (projr (step script (init jsr_mem ([], [])))))) =
     (0xC1C0, snd (fetch script (projr (run script 1 (projr (step script (init jsr_mem ([], [])))))))) \<and>
   drop_bit 12 (0xC1C0 :: word16) = OP_JMP \<and> sel6 0xC1C0 = R_R7 \<and>
   reg_of R_PC (step script (projr (run script 1 (projr (step script (init jsr_mem ([], []))))))) =
     Inr 0x3001"
proof -
  let ?s = "init jsr_mem ([], []) :: (bool list \<times> int list) vm"
  let ?s2 = "projr (step script ?s)"
  let ?t = "projr (run script 1 ?s2)"
  have f: "fetch script ?s = (0x4802, snd (fetch script ?s))"
    by (simp add: eval_defs jsr_mem_def enum_defs)
  have o: "drop_bit 12 (0x4802 :: word16) = OP_JSR" by (simp add: enum_defs)
  have s2: "step script ?s = Inr ?s2"
    by (simp add: eval_defs op_defs jsr_mem_def enum_defs sel_defs)
  have r: "run script 1 ?s2 = Inr ?t"
    by (simp add: eval_defs op_defs jsr_mem_def enum_defs sel_defs)
  have r7: "reg ?t R_R7 = reg ?s2 R_R7"
    by (simp add: eval_defs op_defs jsr_mem_def enum_defs sel_defs)
  have ft: "fetch script ?t = (0xC1C0, snd (fetch script ?t))"
    by (simp add: eval_defs op_defs jsr_mem_def enum_defs sel_defs)
  have oj: "drop_bit 12 (0xC1C0 :: word16) = OP_JMP" "sel6 0xC1C0 = R_R7"
    by (simp_all add: enum_defs sel_defs)
  from jsr_then_ret [OF f o] obtain s2
    where a: "step script ?s = Inr s2"
      and b: "\<forall>n t jmp t1.
          run script n s2 = Inr t \<and> reg t R_R7 = reg s2 R_R7 \<and>
          fetch script t = (jmp, t1) \<and> drop_bit 12 jmp = OP_JMP \<and> sel6 jmp = R_R7 \<longrightarrow>
            (\<exists>t'. step script t = Inr t' \<and> reg t' R_PC = reg ?s R_PC + 1)"
    by blast
  from a s2 have e: "s2 = ?s2" by simp
  from b have "run script 1 s2 = Inr ?t \<and> reg ?t R_R7 = reg s2 R_R7 \<and>
      fetch script ?t = (0xC1C0, snd (fetch script ?t)) \<and>
      drop_bit 12 (0xC1C0 :: word16) = OP_JMP \<and> sel6 0xC1C0 = R_R7 \<longrightarrow>
        (\<exists>t'. step script ?t = Inr t' \<and> reg t' R_PC = reg ?s R_PC + 1)"
    by (elim allE)
  with r r7 ft oj e have "\<exists>t'. step script ?t = Inr t' \<and> reg t' R_PC = reg ?s R_PC + 1"
    by blast
  then have "reg_of R_PC (step script ?t) = Inr (reg ?s R_PC + 1)"
    by (auto simp add: reg_of_def)
  moreover have "reg ?s R_PC + 1 = 0x3001"
    by (simp add: init_def enum_defs)
  ultimately have last: "reg_of R_PC (step script ?t) = Inr 0x3001"
    by (simp only:)
  have obs: "reg_of R_R7 (step script ?s) = Inr 0x3001" "reg_of R_PC (step script ?s) = Inr 0x3003"
    "reg_of R_R7 (run script 1 ?s2) = Inr 0x3001" "reg_of R_PC (run script 1 ?s2) = Inr 0x3004"
    by (simp_all add: eval_defs op_defs jsr_mem_def enum_defs sel_defs)
  show ?thesis by (intro conjI f o obs ft oj last)
qed

subsection \<open>Determinism\<close>

lemma same_outcome_Inr [simp]: "same_outcome R (Inr s) (Inr t) = sim R s t"
  by (simp add: same_outcome_def sim_def)

lemma same_outcome_Inl [simp]: "same_outcome R (Inl e) (Inl e') = (e = e')"
  by (auto simp add: same_outcome_def)















end
